theory Spec2Isabelle
  imports Main "HOL-Library.Monad_Syntax"
begin

section \<open>Data model\<close>

text \<open>
  The source file holds two task-manager components. The first one (the persisted
  component) mirrors its list to the device's key-value store and takes its form values
  from a validating form library; the second one (the in-memory component) keeps
  everything in component state. Both are embedded here; the definitions of the second
  one carry the suffix \<open>_m\<close>.

  \<^verbatim>\<open>interface Task { id: string; title: string; description?: string; completed: boolean }\<close>
\<close>

record Task =
  task_id :: string
  title :: string
  description :: "string option"
  completed :: bool

text \<open>\<^verbatim>\<open>type TaskFormData = { title: string; description?: string }\<close>\<close>

record TaskFormData =
  form_title :: string
  form_description :: "string option"

text \<open>
  \<^verbatim>\<open>x || ""\<close> on an optional string: \<open>undefined\<close> and the empty string are both
  falsy and give the empty string, every other string gives itself.
\<close>

definition or_empty :: "string option \<Rightarrow> string" where
  "or_empty d = (case d of None \<Rightarrow> [] | Some x \<Rightarrow> if x = [] then [] else x)"

text \<open>
  \<^verbatim>\<open>Date.now().toString()\<close>: the clock reading is a non-negative whole number of
  milliseconds, rendered in decimal without leading zeros.
\<close>

definition digit_char :: "nat \<Rightarrow> char" where
  "digit_char d = char_of (48 + d)"

fun toString :: "nat \<Rightarrow> string" where
  "toString n = (if n < 10 then [digit_char n] else toString (n div 10) @ [digit_char (n mod 10)])"

declare toString.simps [simp del]

text \<open>
  \<^verbatim>\<open>String.prototype.trim\<close>: strips white space and line terminators from both
  ends. Of the code units below 256 these are tab, line feed, vertical tab, form feed,
  carriage return, space and the no-break space.
\<close>

definition is_white_space :: "char \<Rightarrow> bool" where
  "is_white_space c =
     (c = CHR 0x09 \<or> c = CHR 0x0A \<or> c = CHR 0x0B \<or> c = CHR 0x0C \<or> c = CHR 0x0D
      \<or> c = CHR 0x20 \<or> c = CHR 0xA0)"

definition trim :: "string \<Rightarrow> string" where
  "trim x = rev (dropWhile is_white_space (rev (dropWhile is_white_space x)))"


section \<open>The device store and the JSON codec\<close>

text \<open>
  \<open>AsyncStorage\<close> is the device's key-value store, outside the repository. It is a map
  from keys to strings; each call either goes through or rejects, and which of the two
  happens is an input of the call (the flag).
\<close>

datatype error = StorageError | SyntaxError | NotATaskArray

type_synonym async_storage = "string \<rightharpoonup> string"

definition AsyncStorage_getItem :: "bool \<Rightarrow> string \<Rightarrow> async_storage \<Rightarrow> error + string option" where
  "AsyncStorage_getItem available k st = (if available then Inr (st k) else Inl StorageError)"

definition AsyncStorage_setItem ::
  "bool \<Rightarrow> string \<Rightarrow> string \<Rightarrow> async_storage \<Rightarrow> error + async_storage" where
  "AsyncStorage_setItem available k v st =
     (if available then Inr (st(k \<mapsto> v)) else Inl StorageError)"

text \<open>
  The values of JSON. A string is the list of its code units; a number is kept as the
  text of its literal (its floating-point value plays no part here); the members of an
  object are in the order of the text.
\<close>

datatype json =
    JNull
  | JBool bool
  | JNumber string
  | JString "nat list"
  | JArray "json list"
  | JObject "(nat list \<times> json) list"

text \<open>
  The runtime's \<open>JSON\<close> object: \<open>stringify\<close>, which the component applies to task
  arrays only, renders a task array as text; \<open>parse\<close> either throws or yields a value,
  of whatever shape. The operations below take it as their first argument, so what they
  do is stated for every codec; section \<open>JSON text\<close> gives the runtime's codec.
\<close>

record json_object =
  stringify :: "Task list \<Rightarrow> string"
  parse :: "string \<Rightarrow> error + json"

text \<open>
  A task array as a value of JSON: one object per task, with the members \<open>id\<close>,
  \<open>title\<close>, \<open>description\<close> (left out when \<open>undefined\<close>) and \<open>completed\<close>, in this
  order. The other way round, \<open>as_tasks\<close> reads a value at the type \<open>Task[]\<close>, which is
  what the component takes a loaded value for without looking: an array of objects whose
  \<open>id\<close> and \<open>title\<close> are strings, whose \<open>completed\<close> is a boolean and whose
  \<open>description\<close> is a string or missing (of members with the same key the last one
  counts, as in the runtime). The order of the members and the members with other keys
  are not kept, and strings are kept only with code units below 256. The values that are
  not of this shape have no counterpart among the task lists.
\<close>

definition code_units :: "string \<Rightarrow> nat list" where
  "code_units x = map of_char x"

definition json_of_task :: "Task \<Rightarrow> json" where
  "json_of_task t =
     JObject ([(code_units ''id'', JString (code_units (task_id t))),
               (code_units ''title'', JString (code_units (title t)))]
              @ (case description t of
                   None \<Rightarrow> []
                 | Some x \<Rightarrow> [(code_units ''description'', JString (code_units x))])
              @ [(code_units ''completed'', JBool (completed t))])"

definition json_of_tasks :: "Task list \<Rightarrow> json" where
  "json_of_tasks ts = JArray (map json_of_task ts)"

definition as_string :: "json \<Rightarrow> string option" where
  "as_string j =
     (case j of
        JString us \<Rightarrow> if list_all (\<lambda>u. u < 256) us then Some (map char_of us) else None
      | _ \<Rightarrow> None)"

definition as_bool :: "json \<Rightarrow> bool option" where
  "as_bool j = (case j of JBool b \<Rightarrow> Some b | _ \<Rightarrow> None)"

definition member :: "string \<Rightarrow> (nat list \<times> json) list \<Rightarrow> json option" where
  "member k ms = map_of (rev ms) (code_units k)"

definition as_task :: "json \<Rightarrow> Task option" where
  "as_task j =
     (case j of
        JObject ms \<Rightarrow>
          do {
            i \<leftarrow> Option.bind (member ''id'' ms) as_string;
            t \<leftarrow> Option.bind (member ''title'' ms) as_string;
            x \<leftarrow> (case member ''description'' ms of
                    None \<Rightarrow> Some None
                  | Some v \<Rightarrow> map_option Some (as_string v));
            b \<leftarrow> Option.bind (member ''completed'' ms) as_bool;
            Some \<lparr>task_id = i, title = t, description = x, completed = b\<rparr>
          }
      | _ \<Rightarrow> None)"

fun those_tasks :: "json list \<Rightarrow> Task list option" where
  "those_tasks [] = Some []"
| "those_tasks (j # js) =
     (case as_task j of
        None \<Rightarrow> None
      | Some t \<Rightarrow> map_option ((#) t) (those_tasks js))"

definition as_tasks :: "json \<Rightarrow> Task list option" where
  "as_tasks j = (case j of JArray js \<Rightarrow> those_tasks js | _ \<Rightarrow> None)"


section \<open>The persisted component\<close>

text \<open>
  The four \<open>useState\<close> cells of the component, together with the world it acts on: the
  device store and the error console. The form library's own state (field values, error
  messages) is not modelled: the submitted values arrive as an argument, and the calls of
  \<open>reset\<close> have no counterpart. Every handler is a function from the state it finds to
  the state it leaves once its awaited write has settled: it describes an intent that
  runs to its end before the next one comes. Presses that come while a write is still
  pending are described by \<open>run_events\<close> further down.
\<close>

record TaskManager =
  tasks :: "Task list"
  editTask :: "Task option"
  filter_st :: string
  selectedTask :: "Task option"
  storage :: async_storage
  console :: "string list"

text \<open>\<^verbatim>\<open>z.object({ title: z.string().min(1, ...), description: z.string().optional() })\<close>\<close>

definition taskSchema :: "TaskFormData \<Rightarrow> bool" where
  "taskSchema task = (1 \<le> length (form_title task))"

text \<open>
  \<open>getAllTasks\<close>: the body of the \<open>try\<close> block first, then the function with its
  \<open>catch\<close>, which logs and returns the empty array.
\<close>

definition getAllTasks_try :: "json_object \<Rightarrow> bool \<Rightarrow> async_storage \<Rightarrow> error + json" where
  "getAllTasks_try JSON available st =
     (case AsyncStorage_getItem available ''tasks'' st of
        Inl e \<Rightarrow> Inl e
      | Inr storedTasks \<Rightarrow>
          (case storedTasks of
             None \<Rightarrow> Inr (JArray [])
           | Some p \<Rightarrow> if p = [] then Inr (JArray []) else parse JSON p))"

definition getAllTasks :: "json_object \<Rightarrow> bool \<Rightarrow> TaskManager \<Rightarrow> json \<times> TaskManager" where
  "getAllTasks JSON available s =
     (case getAllTasks_try JSON available (storage s) of
        Inr storedTasks \<Rightarrow> (storedTasks, s)
      | Inl e \<Rightarrow> (JArray [], s\<lparr>console := console s @ [''Erro ao carregar tarefas:'']\<rparr>))"

text \<open>
  The mount effect: \<^verbatim>\<open>getAllTasks().then((storedTasks) => setTasks(storedTasks))\<close>.
  The loaded value goes into the \<open>tasks\<close> cell unchecked. The cell is typed here, so when
  the value is not a task array the effect ends in \<open>NotATaskArray\<close>: the component then
  holds a list that is none (for a value that is not an array, the next render throws at
  \<open>tasks.filter\<close>), and the model does not follow it further.
\<close>

definition useEffect_mount :: "json_object \<Rightarrow> bool \<Rightarrow> TaskManager \<Rightarrow> error + TaskManager" where
  "useEffect_mount JSON available s =
     (case getAllTasks JSON available s of
        (storedTasks, s') \<Rightarrow>
          (case as_tasks storedTasks of
             Some ts \<Rightarrow> Inr (s'\<lparr>tasks := ts\<rparr>)
           | None \<Rightarrow> Inl NotATaskArray))"

text \<open>
  \<open>saveAllTasks\<close>: \<open>setTasks\<close> comes after the awaited write inside the \<open>try\<close> block, so
  a rejected write skips it and only logs.
\<close>

definition saveAllTasks :: "json_object \<Rightarrow> bool \<Rightarrow> Task list \<Rightarrow> TaskManager \<Rightarrow> TaskManager" where
  "saveAllTasks JSON available updatedTasks s =
     (case AsyncStorage_setItem available ''tasks'' (stringify JSON updatedTasks) (storage s) of
        Inr st' \<Rightarrow> s\<lparr>storage := st', tasks := updatedTasks\<rparr>
      | Inl e \<Rightarrow> s\<lparr>console := console s @ [''Erro ao salvar tarefas:'']\<rparr>)"

definition addTask :: "json_object \<Rightarrow> bool \<Rightarrow> nat \<Rightarrow> TaskFormData \<Rightarrow> TaskManager \<Rightarrow> TaskManager" where
  "addTask JSON available now task s =
     (let newTask = \<lparr>task_id = toString now, title = form_title task,
                     description = Some (or_empty (form_description task)),
                     completed = False\<rparr>;
          updatedTasks = tasks s @ [newTask]
      in saveAllTasks JSON available updatedTasks s)"

definition editExistingTask ::
  "json_object \<Rightarrow> bool \<Rightarrow> TaskFormData \<Rightarrow> TaskManager \<Rightarrow> TaskManager" where
  "editExistingTask JSON available taskData s =
     (case editTask s of
        None \<Rightarrow> s
      | Some e \<Rightarrow>
          (let updatedTasks =
                 map (\<lambda>task. if task_id task = task_id e
                              then task\<lparr>title := form_title taskData,
                                        description := Some (or_empty (form_description taskData))\<rparr>
                              else task) (tasks s)
           in (saveAllTasks JSON available updatedTasks s)\<lparr>editTask := None\<rparr>))"

definition deleteTask :: "json_object \<Rightarrow> bool \<Rightarrow> Task \<Rightarrow> TaskManager \<Rightarrow> TaskManager" where
  "deleteTask JSON available task s =
     (let updatedTasks = filter (\<lambda>t. task_id t \<noteq> task_id task) (tasks s)
      in saveAllTasks JSON available updatedTasks s)"

definition toggleCompleteTask :: "json_object \<Rightarrow> bool \<Rightarrow> Task \<Rightarrow> TaskManager \<Rightarrow> TaskManager" where
  "toggleCompleteTask JSON available task s =
     (let updatedTasks =
            map (\<lambda>t. if task_id t = task_id task then t\<lparr>completed := \<not> completed t\<rparr> else t)
              (tasks s)
      in saveAllTasks JSON available updatedTasks s)"

definition openOptions :: "Task \<Rightarrow> TaskManager \<Rightarrow> TaskManager" where
  "openOptions task s = s\<lparr>selectedTask := Some task, editTask := None\<rparr>"

definition handleOptionsAction :: "json_object \<Rightarrow> bool \<Rightarrow> string \<Rightarrow> TaskManager \<Rightarrow> TaskManager" where
  "handleOptionsAction JSON available action s =
     (let s' =
        (case selectedTask s of
           None \<Rightarrow> s
         | Some sel \<Rightarrow>
             if action = ''complete'' \<or> action = ''incomplete''
               then toggleCompleteTask JSON available sel s
             else if action = ''edit'' then s\<lparr>editTask := Some sel\<rparr>
             else if action = ''delete'' then deleteTask JSON available sel s
             else s)
      in s'\<lparr>selectedTask := None\<rparr>)"

text \<open>The \<open>setFilter\<close> and \<open>setEditTask\<close> state setters, as the buttons call them.\<close>

definition setFilter :: "string \<Rightarrow> TaskManager \<Rightarrow> TaskManager" where
  "setFilter v s = s\<lparr>filter_st := v\<rparr>"

definition setEditTask :: "Task option \<Rightarrow> TaskManager \<Rightarrow> TaskManager" where
  "setEditTask v s = s\<lparr>editTask := v\<rparr>"

definition filteredTasks :: "TaskManager \<Rightarrow> Task list" where
  "filteredTasks s =
     filter (\<lambda>task. if filter_st s = ''complete'' then completed task
                     else if filter_st s = ''incomplete'' then \<not> completed task
                     else True) (tasks s)"

text \<open>
  The submit button: \<^verbatim>\<open>onPress={handleSubmit(editTask ? editExistingTask : addTask)}\<close>.
  The form library calls the handler only when the values pass \<open>taskSchema\<close>.
\<close>

definition handleSubmit :: "json_object \<Rightarrow> bool \<Rightarrow> nat \<Rightarrow> TaskFormData \<Rightarrow> TaskManager \<Rightarrow> TaskManager" where
  "handleSubmit JSON available now values s =
     (if taskSchema values
      then (case editTask s of
              Some e \<Rightarrow> editExistingTask JSON available values s
            | None \<Rightarrow> addTask JSON available now values s)
      else s)"


text \<open>The task that \<open>addTask\<close> builds from a clock reading and the submitted values.\<close>

definition newTask_of :: "nat \<times> TaskFormData \<Rightarrow> Task" where
  "newTask_of c =
     \<lparr>task_id = toString (fst c), title = form_title (snd c),
      description = Some (or_empty (form_description (snd c))), completed = False\<rparr>"

text \<open>
  A handler of the persisted component runs in two steps. When the button is pressed it
  computes \<open>updatedTasks\<close> from the \<open>tasks\<close> of the render it was created in and starts
  the write; when the awaited write settles, \<open>saveAllTasks\<close> goes on, on the state of that
  moment. \<open>addTask\<close> and \<open>toggleCompleteTask\<close> above are the two steps run back to back
  on one state. Here is the first step on its own, as a function of the captured list.
\<close>

definition addTask_updatedTasks :: "nat \<Rightarrow> TaskFormData \<Rightarrow> Task list \<Rightarrow> Task list" where
  "addTask_updatedTasks now task captured = captured @ [newTask_of (now, task)]"

definition toggleCompleteTask_updatedTasks :: "Task \<Rightarrow> Task list \<Rightarrow> Task list" where
  "toggleCompleteTask_updatedTasks task captured =
     map (\<lambda>t. if task_id t = task_id task then t\<lparr>completed := \<not> completed t\<rparr> else t) captured"

text \<open>
  A run of presses and settled writes. The component re-renders after every change of
  its state, so a press captures the list published at that moment; the list it computed
  waits until its write settles, and nothing keeps a second press from coming before
  that. \<open>Settled k available\<close> is the \<open>k\<close>-th waiting write settling, accepted or
  rejected by the store (with no such write nothing happens): \<open>saveAllTasks\<close> goes on
  with the waiting list, on the state of that moment.
\<close>

datatype event = AddPressed nat TaskFormData | TogglePressed Task | Settled nat bool

fun run_events ::
  "json_object \<Rightarrow> event list \<Rightarrow> TaskManager \<times> Task list list \<Rightarrow> TaskManager \<times> Task list list" where
  "run_events JSON [] c = c"
| "run_events JSON (AddPressed now task # es) (s, pending) =
     run_events JSON es (s, pending @ [addTask_updatedTasks now task (tasks s)])"
| "run_events JSON (TogglePressed task # es) (s, pending) =
     run_events JSON es (s, pending @ [toggleCompleteTask_updatedTasks task (tasks s)])"
| "run_events JSON (Settled k available # es) (s, pending) =
     (if k < length pending
      then run_events JSON es
             (saveAllTasks JSON available (pending ! k) s, take k pending @ drop (Suc k) pending)
      else run_events JSON es (s, pending))"

text \<open>
  Additions made one after the other: every press comes after the write of the previous
  one has settled. A call is given by the store's answer to its write, the clock reading
  and the submitted values.
\<close>

definition one_after_the_other :: "(bool \<times> nat \<times> TaskFormData) list \<Rightarrow> event list" where
  "one_after_the_other calls =
     concat (map (\<lambda>c. [AddPressed (fst (snd c)) (snd (snd c)), Settled 0 (fst c)]) calls)"


section \<open>The in-memory component\<close>

text \<open>
  The second component of the source file: the same screen without store and without
  form library. The two text inputs are component state (\<open>newTitle\<close>,
  \<open>newDescription\<close>), and the identifier is \<^verbatim>\<open>Math.random().toString()\<close>, whose
  text is an input of \<open>addTask\<close>.
\<close>

record TaskManager_m =
  tasks_m :: "Task list"
  newTitle :: string
  newDescription :: string
  editTask_m :: "Task option"
  filter_m :: string
  selectedTask_m :: "Task option"

definition addTask_m :: "string \<Rightarrow> TaskManager_m \<Rightarrow> TaskManager_m" where
  "addTask_m random s =
     (if trim (newTitle s) = [] then s
      else (let newTask = \<lparr>task_id = random, title = newTitle s,
                            description = Some (or_empty (Some (newDescription s))),
                            completed = False\<rparr>
            in s\<lparr>tasks_m := tasks_m s @ [newTask], newTitle := [], newDescription := []\<rparr>))"

text \<open>
  Here the replacement spreads the argument \<open>task\<close> (the edit target recorded when the
  edit began), not the list element \<open>t\<close>.
\<close>

definition editExistingTask_m :: "Task \<Rightarrow> TaskManager_m \<Rightarrow> TaskManager_m" where
  "editExistingTask_m task s =
     s\<lparr>tasks_m := map (\<lambda>t. if task_id t = task_id task
                             then task\<lparr>title := newTitle s,
                                       description := Some (newDescription s)\<rparr>
                             else t) (tasks_m s),
       editTask_m := None, newTitle := [], newDescription := []\<rparr>"

definition deleteTask_m :: "string \<Rightarrow> TaskManager_m \<Rightarrow> TaskManager_m" where
  "deleteTask_m taskId s = s\<lparr>tasks_m := filter (\<lambda>task. task_id task \<noteq> taskId) (tasks_m s)\<rparr>"

definition toggleCompleteTask_m :: "string \<Rightarrow> TaskManager_m \<Rightarrow> TaskManager_m" where
  "toggleCompleteTask_m taskId s =
     s\<lparr>tasks_m := map (\<lambda>task. if task_id task = taskId
                                then task\<lparr>completed := \<not> completed task\<rparr>
                                else task) (tasks_m s)\<rparr>"

definition filteredTasks_m :: "TaskManager_m \<Rightarrow> Task list" where
  "filteredTasks_m s =
     filter (\<lambda>task. if filter_m s = ''complete'' then completed task
                     else if filter_m s = ''incomplete'' then \<not> completed task
                     else True) (tasks_m s)"

definition openOptions_m :: "Task \<Rightarrow> TaskManager_m \<Rightarrow> TaskManager_m" where
  "openOptions_m task s = s\<lparr>selectedTask_m := Some task\<rparr>"

definition handleOptionsAction_m :: "string \<Rightarrow> TaskManager_m \<Rightarrow> TaskManager_m" where
  "handleOptionsAction_m action s =
     (let s' =
        (case selectedTask_m s of
           None \<Rightarrow> s
         | Some sel \<Rightarrow>
             if action = ''complete'' then toggleCompleteTask_m (task_id sel) s
             else if action = ''incomplete'' then toggleCompleteTask_m (task_id sel) s
             else if action = ''edit''
               then s\<lparr>editTask_m := Some sel, newTitle := title sel,
                      newDescription := or_empty (description sel)\<rparr>
             else if action = ''delete'' then deleteTask_m (task_id sel) s
             else s)
      in s'\<lparr>selectedTask_m := None\<rparr>)"

definition setFilter_m :: "string \<Rightarrow> TaskManager_m \<Rightarrow> TaskManager_m" where
  "setFilter_m v s = s\<lparr>filter_m := v\<rparr>"

definition setNewTitle :: "string \<Rightarrow> TaskManager_m \<Rightarrow> TaskManager_m" where
  "setNewTitle v s = s\<lparr>newTitle := v\<rparr>"

definition setNewDescription :: "string \<Rightarrow> TaskManager_m \<Rightarrow> TaskManager_m" where
  "setNewDescription v s = s\<lparr>newDescription := v\<rparr>"

text \<open>
  The submit button:
  \<^verbatim>\<open>onPress={editTask ? () => editExistingTask(editTask) : addTask}\<close>.
\<close>

definition onPress_submit_m :: "string \<Rightarrow> TaskManager_m \<Rightarrow> TaskManager_m" where
  "onPress_submit_m random s =
     (case editTask_m s of
        Some e \<Rightarrow> editExistingTask_m e s
      | None \<Rightarrow> addTask_m random s)"

text \<open>
  A run of additions in the in-memory component: for each one the user types a title
  and a description and presses the add button; the call is given by the text of the
  random number and the two typed strings.
\<close>

fun addTasks_m :: "(string \<times> string \<times> string) list \<Rightarrow> TaskManager_m \<Rightarrow> TaskManager_m" where
  "addTasks_m [] s = s"
| "addTasks_m ((random, t, d) # calls) s =
     addTasks_m calls (addTask_m random (setNewDescription d (setNewTitle t s)))"


section \<open>JSON text\<close>

text \<open>
  The runtime's codec. \<open>stringify_tasks\<close> writes what \<open>JSON.stringify\<close> writes for an
  array of task objects: no white space, the members in the order \<open>id\<close>, \<open>title\<close>,
  \<open>description\<close>, \<open>completed\<close>, a member whose value is \<open>undefined\<close> left out, and
  strings quoted with the two-character escapes for backspace, tab, line feed, form feed,
  carriage return, the double quote and the backslash, and \<open>\u00XX\<close> for every other
  code unit below 32. \<open>parse_json\<close> reads any text by the JSON grammar: it splits the
  text into tokens and builds the value from them; a text outside the grammar is answered
  with \<open>SyntaxError\<close>.
\<close>

definition dquote :: char where
  "dquote = CHR 0x22"

definition backslash :: char where
  "backslash = CHR 0x5C"

definition hex_digit :: "nat \<Rightarrow> char" where
  "hex_digit d = (if d < 10 then char_of (48 + d) else char_of (87 + d))"

definition escape_char :: "char \<Rightarrow> string" where
  "escape_char c =
     (if c = CHR 0x08 then [backslash, CHR ''b'']
      else if c = CHR 0x09 then [backslash, CHR ''t'']
      else if c = CHR 0x0A then [backslash, CHR ''n'']
      else if c = CHR 0x0C then [backslash, CHR ''f'']
      else if c = CHR 0x0D then [backslash, CHR ''r'']
      else if c = dquote then [backslash, dquote]
      else if c = backslash then [backslash, backslash]
      else if (of_char c :: nat) < 32
        then [backslash, CHR ''u'', CHR ''0'', CHR ''0'',
              hex_digit (of_char c div 16), hex_digit (of_char c mod 16)]
      else [c])"

definition quote_string :: "string \<Rightarrow> string" where
  "quote_string x = dquote # concat (map escape_char x) @ [dquote]"

definition member_key :: "string \<Rightarrow> string" where
  "member_key k = dquote # k @ [dquote, CHR '':'']"

definition stringify_task :: "Task \<Rightarrow> string" where
  "stringify_task t =
     ''{'' @ member_key ''id'' @ quote_string (task_id t)
     @ '','' @ member_key ''title'' @ quote_string (title t)
     @ (case description t of
          None \<Rightarrow> []
        | Some d \<Rightarrow> '','' @ member_key ''description'' @ quote_string d)
     @ '','' @ member_key ''completed'' @ (if completed t then ''true'' else ''false'')
     @ ''}''"

fun comma_separated :: "string list \<Rightarrow> string" where
  "comma_separated [] = []"
| "comma_separated [x] = x"
| "comma_separated (x # y # zs) = x @ '','' @ comma_separated (y # zs)"

definition stringify_tasks :: "Task list \<Rightarrow> string" where
  "stringify_tasks ts = ''['' @ comma_separated (map stringify_task ts) @ '']''"

definition expect :: "string \<Rightarrow> string \<Rightarrow> string option" where
  "expect p x = (if take (length p) x = p then Some (drop (length p) x) else None)"

definition hex_value :: "char \<Rightarrow> nat option" where
  "hex_value c =
     (let n = (of_char c :: nat)
      in if 48 \<le> n \<and> n \<le> 57 then Some (n - 48)
         else if 97 \<le> n \<and> n \<le> 102 then Some (n - 87)
         else if 65 \<le> n \<and> n \<le> 70 then Some (n - 55)
         else None)"

text \<open>Strings: after the opening quote, up to the closing one.\<close>

definition unicode_escape :: "char \<Rightarrow> char \<Rightarrow> char \<Rightarrow> char \<Rightarrow> nat option" where
  "unicode_escape h1 h2 h3 h4 =
     do {
       a \<leftarrow> hex_value h1;
       b \<leftarrow> hex_value h2;
       c \<leftarrow> hex_value h3;
       d \<leftarrow> hex_value h4;
       Some (((a * 16 + b) * 16 + c) * 16 + d)
     }"

definition unescape :: "char \<Rightarrow> nat option" where
  "unescape e =
     (if e = dquote then Some 0x22
      else if e = backslash then Some 0x5C
      else if e = CHR ''/'' then Some 0x2F
      else if e = CHR ''b'' then Some 0x08
      else if e = CHR ''f'' then Some 0x0C
      else if e = CHR ''n'' then Some 0x0A
      else if e = CHR ''r'' then Some 0x0D
      else if e = CHR ''t'' then Some 0x09
      else None)"

fun lex_string :: "string \<Rightarrow> (nat list \<times> string) option" where
  "lex_string [] = None"
| "lex_string (c # cs) =
     (if c = dquote then Some ([], cs)
      else if c = backslash then
        (case cs of
           [] \<Rightarrow> None
         | e # cs' \<Rightarrow>
             if e = CHR ''u'' then
               (case cs' of
                  h1 # h2 # h3 # h4 # cs'' \<Rightarrow>
                    (case unicode_escape h1 h2 h3 h4 of
                       None \<Rightarrow> None
                     | Some u \<Rightarrow> map_option (apfst ((#) u)) (lex_string cs''))
                | _ \<Rightarrow> None)
             else
               (case unescape e of
                  None \<Rightarrow> None
                | Some u \<Rightarrow> map_option (apfst ((#) u)) (lex_string cs')))
      else if (of_char c :: nat) < 32 then None
      else map_option (apfst ((#) (of_char c))) (lex_string cs))"

text \<open>
  Numbers: an optional minus sign, then \<open>0\<close> or a digit from 1 to 9 followed by digits,
  then optionally a point with at least one digit, then optionally an exponent with an
  optional sign and at least one digit.
\<close>

definition is_digit :: "char \<Rightarrow> bool" where
  "is_digit c = (48 \<le> (of_char c :: nat) \<and> (of_char c :: nat) \<le> 57)"

definition int_part :: "string \<Rightarrow> (string \<times> string) option" where
  "int_part x =
     (case x of
        [] \<Rightarrow> None
      | c # r \<Rightarrow>
          if c = CHR ''0'' then Some ([c], r)
          else if is_digit c then Some (c # takeWhile is_digit r, dropWhile is_digit r)
          else None)"

definition frac_part :: "string \<Rightarrow> (string \<times> string) option" where
  "frac_part x =
     (case x of
        [] \<Rightarrow> Some ([], x)
      | c # r \<Rightarrow>
          if c = CHR ''.'' then
            (if takeWhile is_digit r = [] then None
             else Some (c # takeWhile is_digit r, dropWhile is_digit r))
          else Some ([], x))"

definition exp_part :: "string \<Rightarrow> (string \<times> string) option" where
  "exp_part x =
     (case x of
        [] \<Rightarrow> Some ([], x)
      | c # r \<Rightarrow>
          if c = CHR ''e'' \<or> c = CHR ''E'' then
            (let sign = (case r of
                           [] \<Rightarrow> []
                         | g # _ \<Rightarrow> if g = CHR ''+'' \<or> g = CHR ''-'' then [g] else []);
                 r' = drop (length sign) r
             in if takeWhile is_digit r' = [] then None
                else Some (c # sign @ takeWhile is_digit r', dropWhile is_digit r'))
          else Some ([], x))"

definition lex_number :: "string \<Rightarrow> (string \<times> string) option" where
  "lex_number x =
     (let sign = (case x of [] \<Rightarrow> [] | c # _ \<Rightarrow> if c = CHR ''-'' then [c] else [])
      in do {
           (i, x1) \<leftarrow> int_part (drop (length sign) x);
           (f, x2) \<leftarrow> frac_part x1;
           (e, x3) \<leftarrow> exp_part x2;
           Some (sign @ i @ f @ e, x3)
         })"

text \<open>
  Tokens: the six punctuation marks and the scalar values (strings, numbers and the three
  literals). White space between tokens is space, tab, line feed and carriage return.
\<close>

datatype token = LBracket | RBracket | LBrace | RBrace | Comma | Colon | Scalar json

definition is_json_space :: "char \<Rightarrow> bool" where
  "is_json_space c = (c = CHR 0x20 \<or> c = CHR 0x09 \<or> c = CHR 0x0A \<or> c = CHR 0x0D)"

lemma expect_append: "expect p x = Some r \<Longrightarrow> x = p @ r"
  by (metis append_take_drop_id expect_def option.distinct(1) option.inject)

lemma expect_length: "expect p x = Some r \<Longrightarrow> length r + length p = length x"
  by (auto dest: expect_append)

lemma lex_string_shorter: "lex_string x = Some (y, r) \<Longrightarrow> length r < length x"
proof (induction x arbitrary: y r rule: lex_string.induct)
  case 1
  then show ?case by simp
next
  case (2 c cs)
  then show ?case
    by (fastforce split: if_splits list.splits option.splits)
qed

lemma dropWhile_shorter:
  "length (dropWhile P z) \<le> length z"
  "length (dropWhile P z) \<le> Suc (length z)"
  "length (dropWhile P z) \<le> Suc (Suc (length z))"
  using length_dropWhile_le [of P z] by simp_all

lemma int_part_shorter: "int_part x = Some (y, r) \<Longrightarrow> length r < length x"
  by (auto simp add: int_part_def less_Suc_eq_le dropWhile_shorter
      split: list.splits if_splits)

lemma frac_part_shorter: "frac_part x = Some (y, r) \<Longrightarrow> length r \<le> length x"
  by (auto simp add: frac_part_def dropWhile_shorter split: list.splits if_splits)

lemma exp_part_shorter: "exp_part x = Some (y, r) \<Longrightarrow> length r \<le> length x"
  by (auto simp add: exp_part_def Let_def dropWhile_shorter split: list.splits if_splits)

lemma lex_number_shorter:
  assumes "lex_number x = Some (y, r)"
  shows "length r < length x"
proof -
  obtain n i x1 f x2 e where
    i: "int_part (drop n x) = Some (i, x1)" and f: "frac_part x1 = Some (f, x2)"
    and e: "exp_part x2 = Some (e, r)"
    using assms unfolding lex_number_def Let_def
    by (auto split: Option.bind_splits prod.splits)
  have "length x1 < length (drop n x)"
    using i by (rule int_part_shorter)
  moreover have "length x2 \<le> length x1"
    using f by (rule frac_part_shorter)
  moreover have "length r \<le> length x2"
    using e by (rule exp_part_shorter)
  ultimately show ?thesis
    by simp
qed

function lex :: "string \<Rightarrow> token list option" where
  "lex [] = Some []"
| "lex (c # cs) =
     (if is_json_space c then lex cs
      else if c = CHR ''['' then map_option ((#) LBracket) (lex cs)
      else if c = CHR '']'' then map_option ((#) RBracket) (lex cs)
      else if c = CHR ''{'' then map_option ((#) LBrace) (lex cs)
      else if c = CHR ''}'' then map_option ((#) RBrace) (lex cs)
      else if c = CHR '','' then map_option ((#) Comma) (lex cs)
      else if c = CHR '':'' then map_option ((#) Colon) (lex cs)
      else if c = dquote then
        (case lex_string cs of
           None \<Rightarrow> None
         | Some (u, r) \<Rightarrow> map_option ((#) (Scalar (JString u))) (lex r))
      else if c = CHR ''t'' then
        (case expect ''rue'' cs of
           None \<Rightarrow> None
         | Some r \<Rightarrow> map_option ((#) (Scalar (JBool True))) (lex r))
      else if c = CHR ''f'' then
        (case expect ''alse'' cs of
           None \<Rightarrow> None
         | Some r \<Rightarrow> map_option ((#) (Scalar (JBool False))) (lex r))
      else if c = CHR ''n'' then
        (case expect ''ull'' cs of
           None \<Rightarrow> None
         | Some r \<Rightarrow> map_option ((#) (Scalar JNull)) (lex r))
      else
        (case lex_number (c # cs) of
           None \<Rightarrow> None
         | Some (n, r) \<Rightarrow> map_option ((#) (Scalar (JNumber n))) (lex r)))"
  by pat_completeness auto
termination
  by (relation "measure length")
     (auto dest: lex_string_shorter lex_number_shorter expect_length)

text \<open>
  From tokens to a value, one token at a time. The stack holds the arrays and objects
  that are still open: an array with its elements so far, an object with its members so
  far and the key whose value is being read (both lists latest first). Beside the stack
  stands what may come next: a value; a value or the end of an array just opened; a key
  or the end of an object just opened; a key; the colon after a key; or, with a value
  just completed, what may follow a value.
\<close>

datatype frame = InArray "json list" | InObject "(nat list \<times> json) list" "nat list"

datatype expecting =
    Value
  | ValueOrClose
  | KeyOrClose
  | Key "(nat list \<times> json) list"
  | ColonAfter "(nat list \<times> json) list" "nat list"
  | After json

definition start_value :: "token \<Rightarrow> frame list \<Rightarrow> (frame list \<times> expecting) option" where
  "start_value t st =
     (case t of
        Scalar v \<Rightarrow> Some (st, After v)
      | LBracket \<Rightarrow> Some (InArray [] # st, ValueOrClose)
      | LBrace \<Rightarrow> Some (st, KeyOrClose)
      | _ \<Rightarrow> None)"

definition step :: "token \<Rightarrow> frame list \<Rightarrow> expecting \<Rightarrow> (frame list \<times> expecting) option" where
  "step t st e =
     (case e of
        Value \<Rightarrow> start_value t st
      | ValueOrClose \<Rightarrow>
          (case t of
             RBracket \<Rightarrow>
               (case st of
                  InArray [] # st' \<Rightarrow> Some (st', After (JArray []))
                | _ \<Rightarrow> None)
           | _ \<Rightarrow> start_value t st)
      | KeyOrClose \<Rightarrow>
          (case t of
             RBrace \<Rightarrow> Some (st, After (JObject []))
           | Scalar (JString k) \<Rightarrow> Some (st, ColonAfter [] k)
           | _ \<Rightarrow> None)
      | Key ms \<Rightarrow>
          (case t of
             Scalar (JString k) \<Rightarrow> Some (st, ColonAfter ms k)
           | _ \<Rightarrow> None)
      | ColonAfter ms k \<Rightarrow>
          (case t of
             Colon \<Rightarrow> Some (InObject ms k # st, Value)
           | _ \<Rightarrow> None)
      | After v \<Rightarrow>
          (case st of
             [] \<Rightarrow> None
           | InArray xs # st' \<Rightarrow>
               (case t of
                  Comma \<Rightarrow> Some (InArray (v # xs) # st', Value)
                | RBracket \<Rightarrow> Some (st', After (JArray (rev (v # xs))))
                | _ \<Rightarrow> None)
           | InObject ms k # st' \<Rightarrow>
               (case t of
                  Comma \<Rightarrow> Some (st', Key ((k, v) # ms))
                | RBrace \<Rightarrow> Some (st', After (JObject (rev ((k, v) # ms))))
                | _ \<Rightarrow> None)))"

fun parse_tokens :: "token list \<Rightarrow> frame list \<Rightarrow> expecting \<Rightarrow> json option" where
  "parse_tokens [] st e = (case (st, e) of ([], After v) \<Rightarrow> Some v | _ \<Rightarrow> None)"
| "parse_tokens (t # ts) st e =
     (case step t st e of
        None \<Rightarrow> None
      | Some (st', e') \<Rightarrow> parse_tokens ts st' e')"

definition parse_json :: "string \<Rightarrow> error + json" where
  "parse_json x =
     (case lex x of
        None \<Rightarrow> Inl SyntaxError
      | Some ts \<Rightarrow>
          (case parse_tokens ts [] Value of
             None \<Rightarrow> Inl SyntaxError
           | Some v \<Rightarrow> Inr v))"

definition JSON_runtime :: json_object where
  "JSON_runtime = \<lparr>stringify = stringify_tasks, parse = parse_json\<rparr>"

text \<open>The tokens of the text that \<open>stringify_tasks\<close> writes, task by task.\<close>

definition tokens_of_task :: "Task \<Rightarrow> token list" where
  "tokens_of_task t =
     [LBrace, Scalar (JString (code_units ''id'')), Colon,
      Scalar (JString (code_units (task_id t))),
      Comma, Scalar (JString (code_units ''title'')), Colon,
      Scalar (JString (code_units (title t)))]
     @ (case description t of
          None \<Rightarrow> []
        | Some x \<Rightarrow>
            [Comma, Scalar (JString (code_units ''description'')), Colon,
             Scalar (JString (code_units x))])
     @ [Comma, Scalar (JString (code_units ''completed'')), Colon,
        Scalar (JBool (completed t)), RBrace]"

fun tokens_of_elements :: "Task list \<Rightarrow> token list" where
  "tokens_of_elements [] = []"
| "tokens_of_elements [t] = tokens_of_task t"
| "tokens_of_elements (t # u # us) = tokens_of_task t @ Comma # tokens_of_elements (u # us)"

text \<open>The state of a freshly mounted component, over a given device store.\<close>

definition initial :: "async_storage \<Rightarrow> TaskManager" where
  "initial st = \<lparr>tasks = [], editTask = None, filter_st = ''all'', selectedTask = None,
                  storage = st, console = []\<rparr>"

definition initial_m :: TaskManager_m where
  "initial_m = \<lparr>tasks_m = [], newTitle = [], newDescription = [], editTask_m = None,
                 filter_m = ''all'', selectedTask_m = None\<rparr>"

text \<open>The task that the in-memory \<open>addTask\<close> builds from a call of \<open>addTasks_m\<close>.\<close>

definition newTask_m_of :: "string \<times> string \<times> string \<Rightarrow> Task" where
  "newTask_m_of c =
     \<lparr>task_id = fst c, title = fst (snd c),
      description = Some (or_empty (Some (snd (snd c)))), completed = False\<rparr>"

text \<open>Two tasks and two states used in the examples below.\<close>

definition task_a :: Task where
  "task_a = \<lparr>task_id = ''1700000000000'', title = ''Buy milk'', description = Some [],
             completed = False\<rparr>"

definition task_b :: Task where
  "task_b = \<lparr>task_id = ''1700000000001'', title = ''Call Ana'', description = Some ''today'',
             completed = True\<rparr>"

definition two_tasks :: TaskManager where
  "two_tasks = (initial Map.empty)\<lparr>tasks := [task_a, task_b]\<rparr>"

definition two_tasks_m :: TaskManager_m where
  "two_tasks_m = initial_m\<lparr>tasks_m := [task_a, task_b]\<rparr>"

text \<open>
  A session of the in-memory component: the user adds a task, opens its options and
  chooses to edit it, so that the task becomes the edit target.
\<close>

definition added_m :: TaskManager_m where
  "added_m = addTask_m ''0.25'' (setNewTitle ''Buy milk'' initial_m)"

definition milk_m :: Task where
  "milk_m = \<lparr>task_id = ''0.25'', title = ''Buy milk'', description = Some [], completed = False\<rparr>"

definition editing_m :: TaskManager_m where
  "editing_m = handleOptionsAction_m ''edit'' (openOptions_m milk_m added_m)"

text \<open>
  From there, the user opens the options of the same task again and marks it complete,
  then types a new title and presses the submit button (which saves the edit).
\<close>

definition toggled_while_editing_m :: TaskManager_m where
  "toggled_while_editing_m = handleOptionsAction_m ''complete'' (openOptions_m milk_m editing_m)"

definition edit_saved_m :: TaskManager_m where
  "edit_saved_m = onPress_submit_m ''0.5'' (setNewTitle ''Buy oat milk'' toggled_while_editing_m)"

text \<open>Or, from the editing state, the user opens the options again and deletes the task.\<close>

definition deleted_while_editing_m :: TaskManager_m where
  "deleted_while_editing_m = handleOptionsAction_m ''delete'' (openOptions_m milk_m editing_m)"


section \<open>The codec inverts itself on task arrays\<close>

declare lex.simps [simp del]

lemma dquote_neq_backslash: "dquote \<noteq> backslash" "backslash \<noteq> dquote"
  by (simp_all add: dquote_def backslash_def)

lemma hex_value_hex_digit: "d < 16 \<Longrightarrow> hex_value (hex_digit d) = Some d"
  by (auto simp add: hex_value_def hex_digit_def Let_def)

lemma unicode_escape_control:
  assumes "(of_char c :: nat) < 32"
  shows "unicode_escape (CHR ''0'') (CHR ''0'')
           (hex_digit (of_char c div 16)) (hex_digit (of_char c mod 16)) = Some (of_char c)"
proof -
  let ?n = "of_char c :: nat"
  have z: "hex_value (CHR ''0'') = Some 0"
    by (simp add: hex_value_def)
  have hi: "hex_value (hex_digit (?n div 16)) = Some (?n div 16)"
    using assms by (intro hex_value_hex_digit) simp
  have lo: "hex_value (hex_digit (?n mod 16)) = Some (?n mod 16)"
    by (intro hex_value_hex_digit) simp
  have n: "?n div 16 * 16 + ?n mod 16 = ?n"
    by simp
  show ?thesis
    unfolding unicode_escape_def by (simp add: z hi lo n)
qed

lemma lex_string_escape_char:
  assumes "lex_string rest = Some (x, r)"
  shows "lex_string (escape_char c @ rest) = Some (of_char c # x, r)"
proof -
  consider (short) "c \<in> {CHR 0x08, CHR 0x09, CHR 0x0A, CHR 0x0C, CHR 0x0D}"
    | (is_quote) "c = dquote"
    | (is_backslash) "c = backslash"
    | (control) "c \<notin> {CHR 0x08, CHR 0x09, CHR 0x0A, CHR 0x0C, CHR 0x0D} \<and>
        c \<noteq> dquote \<and> c \<noteq> backslash \<and> (of_char c :: nat) < 32"
    | (plain) "c \<noteq> dquote \<and> c \<noteq> backslash \<and> \<not> (of_char c :: nat) < 32"
    by blast
  then show ?thesis
  proof cases
    case short
    then show ?thesis
      using assms by (auto simp add: escape_char_def unescape_def dquote_def backslash_def)
  next
    case is_quote
    then show ?thesis
      using assms by (simp add: escape_char_def unescape_def dquote_def backslash_def)
  next
    case is_backslash
    then show ?thesis
      using assms by (simp add: escape_char_def unescape_def dquote_def backslash_def)
  next
    case control
    then have "escape_char c = [backslash, CHR ''u'', CHR ''0'', CHR ''0'',
                 hex_digit (of_char c div 16), hex_digit (of_char c mod 16)]"
      by (simp add: escape_char_def)
    moreover have "unicode_escape (CHR ''0'') (CHR ''0'')
           (hex_digit (of_char c div 16)) (hex_digit (of_char c mod 16)) = Some (of_char c)"
      using control by (intro unicode_escape_control) simp
    ultimately show ?thesis
      using assms by (simp add: dquote_neq_backslash)
  next
    case plain
    then have "escape_char c = [c]"
      by (auto simp add: escape_char_def)
    then show ?thesis
      using assms plain by simp
  qed
qed

lemma lex_string_escaped:
  "lex_string (concat (map escape_char x) @ dquote # r) = Some (code_units x, r)"
  by (induction x) (simp_all add: lex_string_escape_char code_units_def)

subsection \<open>Tokens of the written text\<close>

lemma lex_punctuation:
  "lex (CHR ''['' # r) = map_option ((#) LBracket) (lex r)"
  "lex (CHR '']'' # r) = map_option ((#) RBracket) (lex r)"
  "lex (CHR ''{'' # r) = map_option ((#) LBrace) (lex r)"
  "lex (CHR ''}'' # r) = map_option ((#) RBrace) (lex r)"
  "lex (CHR '','' # r) = map_option ((#) Comma) (lex r)"
  "lex (CHR '':'' # r) = map_option ((#) Colon) (lex r)"
  by (simp_all add: lex.simps is_json_space_def)

lemma lex_literals:
  "lex (CHR ''t'' # CHR ''r'' # CHR ''u'' # CHR ''e'' # r)
     = map_option ((#) (Scalar (JBool True))) (lex r)"
  "lex (CHR ''f'' # CHR ''a'' # CHR ''l'' # CHR ''s'' # CHR ''e'' # r)
     = map_option ((#) (Scalar (JBool False))) (lex r)"
  "lex (CHR ''n'' # CHR ''u'' # CHR ''l'' # CHR ''l'' # r)
     = map_option ((#) (Scalar JNull)) (lex r)"
  by (simp_all add: lex.simps is_json_space_def dquote_def expect_def)

lemma lex_quote_string:
  "lex (quote_string x @ r) = map_option ((#) (Scalar (JString (code_units x)))) (lex r)"
proof -
  have "lex (dquote # concat (map escape_char x) @ dquote # r)
      = map_option ((#) (Scalar (JString (code_units x)))) (lex r)"
    by (subst lex.simps) (simp add: is_json_space_def dquote_def lex_string_escaped [unfolded dquote_def])
  then show ?thesis
    by (simp add: quote_string_def)
qed

lemma member_key_quote_string:
  "member_key ''id'' = quote_string ''id'' @ '':''"
  "member_key ''title'' = quote_string ''title'' @ '':''"
  "member_key ''description'' = quote_string ''description'' @ '':''"
  "member_key ''completed'' = quote_string ''completed'' @ '':''"
  by (simp_all add: member_key_def quote_string_def escape_char_def dquote_def backslash_def)

lemma lex_member_key:
  assumes "member_key k = quote_string k @ '':''"
  shows "lex (member_key k @ r)
     = map_option (\<lambda>ts. Scalar (JString (code_units k)) # Colon # ts) (lex r)"
proof -
  have "lex (member_key k @ r) = lex (quote_string k @ CHR '':'' # r)"
    by (simp add: assms)
  also have "\<dots> = map_option ((#) (Scalar (JString (code_units k)))) (lex (CHR '':'' # r))"
    by (rule lex_quote_string)
  finally show ?thesis
    by (simp add: lex_punctuation option.map_comp comp_def)
qed

lemmas lex_member_keys = member_key_quote_string [THEN lex_member_key]

lemma lex_stringify_task:
  "lex (stringify_task t @ r) = map_option ((@) (tokens_of_task t)) (lex r)"
proof (cases "description t")
  case None
  then show ?thesis
    by (cases "completed t"; cases "lex r")
       (simp_all add: stringify_task_def tokens_of_task_def lex_punctuation lex_literals
          lex_member_keys lex_quote_string)
next
  case (Some x)
  then show ?thesis
    by (cases "completed t"; cases "lex r")
       (simp_all add: stringify_task_def tokens_of_task_def lex_punctuation lex_literals
          lex_member_keys lex_quote_string)
qed

lemma lex_comma_separated:
  "lex (comma_separated (stringify_task t # map stringify_task ts) @ r)
     = map_option ((@) (tokens_of_elements (t # ts))) (lex r)"
proof (induction ts arbitrary: t)
  case Nil
  show ?case
    by (simp add: lex_stringify_task)
next
  case (Cons u us)
  show ?case
    by (cases "lex r") (simp_all add: lex_stringify_task lex_punctuation Cons.IH)
qed

lemma lex_stringify_tasks:
  "lex (stringify_tasks ts) = Some (LBracket # tokens_of_elements ts @ [RBracket])"
proof (cases ts)
  case Nil
  then show ?thesis
    by (simp add: stringify_tasks_def lex_punctuation lex.simps(1))
next
  case (Cons t us)
  have "lex (comma_separated (stringify_task t # map stringify_task us) @ '']'')
      = Some (tokens_of_elements (t # us) @ [RBracket])"
    unfolding lex_comma_separated by (simp add: lex_punctuation lex.simps(1))
  then show ?thesis
    by (simp add: stringify_tasks_def Cons lex_punctuation)
qed

subsection \<open>The value built from the tokens\<close>

lemma parse_tokens_task:
  assumes "e = Value \<or> e = ValueOrClose"
  shows "parse_tokens (tokens_of_task t @ ts) st e = parse_tokens ts st (After (json_of_task t))"
proof (cases "description t")
  case None
  with assms show ?thesis
    by (auto simp add: tokens_of_task_def json_of_task_def step_def start_value_def)
next
  case (Some x)
  with assms show ?thesis
    by (auto simp add: tokens_of_task_def json_of_task_def step_def start_value_def)
qed

lemma parse_tokens_elements:
  assumes "e = Value \<or> e = ValueOrClose"
  shows "parse_tokens (tokens_of_elements (t # us) @ RBracket # ts) (InArray xs # st) e
     = parse_tokens ts st (After (JArray (rev xs @ map json_of_task (t # us))))"
  using assms
proof (induction us arbitrary: t xs e)
  case Nil
  then show ?case
    by (simp add: parse_tokens_task step_def)
next
  case (Cons u us)
  have "parse_tokens (tokens_of_elements (t # u # us) @ RBracket # ts) (InArray xs # st) e
      = parse_tokens (tokens_of_elements (u # us) @ RBracket # ts)
          (InArray (json_of_task t # xs) # st) Value"
    using Cons.prems by (simp add: parse_tokens_task step_def)
  also have "\<dots> = parse_tokens ts st
      (After (JArray (rev (json_of_task t # xs) @ map json_of_task (u # us))))"
    by (rule Cons.IH) simp
  finally show ?case
    by simp
qed

lemma parse_tokens_tasks:
  "parse_tokens (LBracket # tokens_of_elements ts @ [RBracket]) [] Value = Some (json_of_tasks ts)"
proof (cases ts)
  case Nil
  then show ?thesis
    by (simp add: step_def start_value_def json_of_tasks_def)
next
  case (Cons t us)
  have "parse_tokens (tokens_of_elements (t # us) @ RBracket # []) (InArray [] # []) ValueOrClose
      = parse_tokens [] [] (After (JArray (rev [] @ map json_of_task (t # us))))"
    by (rule parse_tokens_elements) simp
  then show ?thesis
    by (simp add: Cons step_def start_value_def json_of_tasks_def)
qed

lemma parse_json_stringify_tasks: "parse_json (stringify_tasks ts) = Inr (json_of_tasks ts)"
  by (simp add: parse_json_def lex_stringify_tasks parse_tokens_tasks del: parse_tokens.simps)

lemma stringify_tasks_nonempty: "stringify_tasks ts \<noteq> []"
  by (simp add: stringify_tasks_def)

subsection \<open>Task arrays among the values\<close>

lemma as_string_code_units: "as_string (JString (code_units x)) = Some x"
  by (simp add: as_string_def code_units_def list_all_iff comp_def)

lemma member_json_of_task:
  "member ''id'' (ms @ [(code_units ''completed'', v)]) = member ''id'' ms"
  "member ''title'' (ms @ [(code_units ''completed'', v)]) = member ''title'' ms"
  "member ''description'' (ms @ [(code_units ''completed'', v)]) = member ''description'' ms"
  "member ''completed'' (ms @ [(code_units ''completed'', v)]) = Some v"
  "member ''id'' [(code_units ''id'', i), (code_units ''title'', w)] = Some i"
  "member ''title'' [(code_units ''id'', i), (code_units ''title'', w)] = Some w"
  "member ''description'' [(code_units ''id'', i), (code_units ''title'', w)] = None"
  "member ''id'' [(code_units ''id'', i), (code_units ''title'', w),
     (code_units ''description'', x)] = Some i"
  "member ''title'' [(code_units ''id'', i), (code_units ''title'', w),
     (code_units ''description'', x)] = Some w"
  "member ''description'' [(code_units ''id'', i), (code_units ''title'', w),
     (code_units ''description'', x)] = Some x"
  by (simp_all add: member_def code_units_def)

lemma as_task_json_of_task: "as_task (json_of_task t) = Some t"
proof (cases "description t")
  case None
  then have j: "json_of_task t
      = JObject ([(code_units ''id'', JString (code_units (task_id t))),
                  (code_units ''title'', JString (code_units (title t)))]
                 @ [(code_units ''completed'', JBool (completed t))])"
    by (simp add: json_of_task_def)
  show ?thesis
    unfolding as_task_def j
    by (simp add: member_json_of_task as_string_code_units as_bool_def None
        del: append_Cons append_Nil)
next
  case (Some x)
  then have j: "json_of_task t
      = JObject ([(code_units ''id'', JString (code_units (task_id t))),
                  (code_units ''title'', JString (code_units (title t))),
                  (code_units ''description'', JString (code_units x))]
                 @ [(code_units ''completed'', JBool (completed t))])"
    by (simp add: json_of_task_def)
  show ?thesis
    unfolding as_task_def j
    by (simp add: member_json_of_task as_string_code_units as_bool_def Some
        del: append_Cons append_Nil)
qed

lemma as_tasks_json_of_tasks: "as_tasks (json_of_tasks ts) = Some ts"
proof -
  have "those_tasks (map json_of_task ts) = Some ts"
    by (induction ts) (simp_all add: as_task_json_of_task)
  then show ?thesis
    by (simp add: as_tasks_def json_of_tasks_def)
qed

lemma json_of_tasks_inj: "json_of_tasks ts = json_of_tasks us \<Longrightarrow> ts = us"
  by (metis as_tasks_json_of_tasks option.inject)


section \<open>Facts about the operations\<close>

lemma saveAllTasks_tasks:
  "tasks (saveAllTasks JSON available updatedTasks s) = (if available then updatedTasks else tasks s)"
  by (simp add: saveAllTasks_def AsyncStorage_setItem_def)

lemma saveAllTasks_storage:
  "storage (saveAllTasks JSON available updatedTasks s) =
     (if available then (storage s)(''tasks'' \<mapsto> stringify JSON updatedTasks) else storage s)"
  by (simp add: saveAllTasks_def AsyncStorage_setItem_def)

lemma saveAllTasks_console:
  "console (saveAllTasks JSON available updatedTasks s) =
     (if available then console s else console s @ [''Erro ao salvar tarefas:''])"
  by (simp add: saveAllTasks_def AsyncStorage_setItem_def)

lemma saveAllTasks_view:
  "editTask (saveAllTasks JSON available updatedTasks s) = editTask s"
  "selectedTask (saveAllTasks JSON available updatedTasks s) = selectedTask s"
  "filter_st (saveAllTasks JSON available updatedTasks s) = filter_st s"
  by (simp_all add: saveAllTasks_def AsyncStorage_setItem_def)

subsection \<open>Decimal rendering is injective\<close>

lemma digit_char_inj:
  assumes "a < 10" "b < 10" "digit_char a = digit_char b"
  shows "a = b"
proof -
  have "(of_char (digit_char a) :: nat) = of_char (digit_char b)"
    using assms(3) by simp
  then show ?thesis
    using assms(1,2) by (simp add: digit_char_def)
qed

lemma toString_nonempty: "toString n \<noteq> []"
  by (subst toString.simps) simp

lemma toString_inj: "toString m = toString n \<Longrightarrow> m = n"
proof (induction m arbitrary: n rule: toString.induct)
  case (1 m)
  show ?case
  proof (cases "m < 10")
    case True
    then have m: "toString m = [digit_char m]"
      by (subst toString.simps) simp
    show ?thesis
    proof (cases "n < 10")
      case True
      then have "toString n = [digit_char n]"
        by (subst toString.simps) simp
      with m "1.prems" \<open>m < 10\<close> True show ?thesis
        by (auto dest: digit_char_inj)
    next
      case False
      then have "toString n = toString (n div 10) @ [digit_char (n mod 10)]"
        by (subst toString.simps) simp
      with m "1.prems" toString_nonempty [of "n div 10"] show ?thesis
        by (cases "toString (n div 10)") auto
    qed
  next
    case False
    then have m: "toString m = toString (m div 10) @ [digit_char (m mod 10)]"
      by (subst toString.simps) simp
    show ?thesis
    proof (cases "n < 10")
      case True
      then have "toString n = [digit_char n]"
        by (subst toString.simps) simp
      with m "1.prems" toString_nonempty [of "m div 10"] show ?thesis
        by (cases "toString (m div 10)") auto
    next
      case n: False
      then have "toString n = toString (n div 10) @ [digit_char (n mod 10)]"
        by (subst toString.simps) simp
      with m "1.prems" have eq: "toString (m div 10) = toString (n div 10)"
        and d: "digit_char (m mod 10) = digit_char (n mod 10)"
        by auto
      have "m div 10 = n div 10"
        using "1.IH" [OF False eq] .
      moreover have "m mod 10 = n mod 10"
        using d by (intro digit_char_inj) simp_all
      ultimately show ?thesis
        by (metis div_mult_mod_eq)
    qed
  qed
qed

lemma distinct_map_toString: "distinct xs \<Longrightarrow> distinct (map toString xs)"
  by (auto simp add: distinct_map intro!: inj_onI dest: toString_inj)

subsection \<open>Runs of additions\<close>

lemma addTask_two_steps:
  "addTask JSON available now task s
     = saveAllTasks JSON available (addTask_updatedTasks now task (tasks s)) s"
  by (simp add: addTask_def addTask_updatedTasks_def newTask_of_def)

lemma toggleCompleteTask_two_steps:
  "toggleCompleteTask JSON available task s
     = saveAllTasks JSON available (toggleCompleteTask_updatedTasks task (tasks s)) s"
  by (simp add: toggleCompleteTask_def toggleCompleteTask_updatedTasks_def)

lemma run_events_append:
  "run_events JSON (es @ fs) c = run_events JSON fs (run_events JSON es c)"
  by (induction JSON es c rule: run_events.induct) simp_all

lemma run_events_addTask:
  "run_events JSON [AddPressed now task, Settled 0 available] (s, [])
     = (addTask JSON available now task s, [])"
  by (simp add: addTask_two_steps)

lemma run_events_toggleCompleteTask:
  "run_events JSON [TogglePressed task, Settled 0 available] (s, [])
     = (toggleCompleteTask JSON available task s, [])"
  by (simp add: toggleCompleteTask_two_steps)

lemma addTask_accepted:
  "tasks (addTask JSON True now task s) = tasks s @ [newTask_of (now, task)]"
  by (simp add: addTask_def saveAllTasks_tasks newTask_of_def)

lemma one_after_the_other_accepted:
  "\<forall>c \<in> set calls. fst c \<Longrightarrow>
   \<exists>s'. run_events JSON (one_after_the_other calls) (s, []) = (s', [])
        \<and> tasks s' = tasks s @ map (newTask_of \<circ> snd) calls"
proof (induction calls arbitrary: s)
  case Nil
  show ?case by (simp add: one_after_the_other_def)
next
  case (Cons c calls)
  obtain available now task where c: "c = (available, now, task)"
    by (cases c)
  with Cons.prems have "available"
    by simp
  have split: "one_after_the_other (c # calls)
      = [AddPressed now task, Settled 0 available] @ one_after_the_other calls"
    by (simp add: one_after_the_other_def c)
  obtain s' where s': "run_events JSON (one_after_the_other calls)
        (addTask JSON available now task s, []) = (s', [])"
      "tasks s' = tasks (addTask JSON available now task s) @ map (newTask_of \<circ> snd) calls"
    using Cons.IH [of "addTask JSON available now task s"] Cons.prems by auto
  show ?case
    unfolding split run_events_append run_events_addTask
    using s' \<open>available\<close> by (simp add: addTask_accepted c)
qed

lemma addTask_m_nonblank:
  "trim t \<noteq> [] \<Longrightarrow>
   tasks_m (addTask_m random (setNewDescription d (setNewTitle t s)))
     = tasks_m s @ [newTask_m_of (random, t, d)]"
  by (simp add: addTask_m_def setNewDescription_def setNewTitle_def newTask_m_of_def)

lemma addTasks_m_nonblank:
  "\<forall>c \<in> set calls. trim (fst (snd c)) \<noteq> [] \<Longrightarrow>
   tasks_m (addTasks_m calls s) = tasks_m s @ map newTask_m_of calls"
proof (induction calls arbitrary: s)
  case Nil
  show ?case by simp
next
  case (Cons c calls)
  obtain random t d where c: "c = (random, t, d)"
    by (cases c)
  with Cons.prems have "trim t \<noteq> []"
    by simp
  with Cons c show ?case
    by (simp add: addTask_m_nonblank)
qed

lemma task_id_newTask_of: "task_id (newTask_of c) = toString (fst c)"
  by (simp add: newTask_of_def)

lemma task_id_newTask_m_of: "task_id (newTask_m_of c) = fst c"
  by (simp add: newTask_m_of_def)


section \<open>The claims\<close>

subsection \<open>Runs of additions: length and identifiers\<close>

text \<open>
  C1, as stated, fails in four ways. Two additions with distinct non-empty titles made
  at the same clock reading get the same \<open>id\<close>. An addition whose write the store
  rejects does not lengthen the list. Two additions of which the second is pressed while
  the write of the first is still pending both start from the same captured list, and
  the one that settles last overwrites the other: one task is left. And in the in-memory
  component a title of one space, which is not empty, is refused: two calls give one
  task.
\<close>

theorem addTask_counterexample:
  "distinct [''Buy milk'', ''Call Ana''] \<and> [] \<notin> set [''Buy milk'', ''Call Ana'']
   \<and> map task_id (tasks (fst (run_events JSON_runtime
        [AddPressed 1700000000000 \<lparr>form_title = ''Buy milk'', form_description = None\<rparr>,
         Settled 0 True,
         AddPressed 1700000000000 \<lparr>form_title = ''Call Ana'', form_description = None\<rparr>,
         Settled 0 True]
        (initial Map.empty, []))))
       = [toString 1700000000000, toString 1700000000000]
   \<and> \<not> distinct (map task_id (tasks (fst (run_events JSON_runtime
        [AddPressed 1700000000000 \<lparr>form_title = ''Buy milk'', form_description = None\<rparr>,
         Settled 0 True,
         AddPressed 1700000000000 \<lparr>form_title = ''Call Ana'', form_description = None\<rparr>,
         Settled 0 True]
        (initial Map.empty, [])))))
   \<and> length (tasks (fst (run_events JSON_runtime
        [AddPressed 1700000000000 \<lparr>form_title = ''Buy milk'', form_description = None\<rparr>,
         Settled 0 False]
        (initial Map.empty, [])))) = 0
   \<and> map title (tasks (fst (run_events JSON_runtime
        [AddPressed 1700000000000 \<lparr>form_title = ''Buy milk'', form_description = None\<rparr>,
         AddPressed 1700000000001 \<lparr>form_title = ''Call Ana'', form_description = None\<rparr>,
         Settled 0 True,
         Settled 0 True]
        (initial Map.empty, [])))) = [''Call Ana'']
   \<and> distinct [''Buy milk'', '' ''] \<and> [] \<notin> set [''Buy milk'', '' '']
   \<and> length (tasks_m (addTasks_m [(''0.25'', ''Buy milk'', []), (''0.75'', '' '', [])] initial_m))
       = 1"
  by (simp add: addTask_updatedTasks_def newTask_of_def saveAllTasks_tasks initial_def
      initial_m_def addTask_m_def setNewTitle_def setNewDescription_def trim_def
      is_white_space_def)

text \<open>
  C1, amended. Take \<open>addTask\<close> calls made one after the other (each pressed after the
  write of the previous one has settled), with titles that are not blank after \<open>trim\<close>
  and writes that the store accepts. They append one task per call, in the order of the
  calls, so the length grows by the number of calls; the new \<open>id\<close>s are the decimal clock
  readings, and the \<open>id\<close>s of the resulting list are pairwise distinct when those of the
  starting list are, the readings are pairwise distinct and none of them renders to an
  \<open>id\<close> of the starting list. In the in-memory component, whose \<open>addTask\<close> awaits
  nothing, the same holds for calls with titles that are not blank after \<open>trim\<close>, with
  the texts of the random numbers in place of the clock readings.
\<close>

theorem addTasks_length_and_ids:
  "((\<forall>c \<in> set calls. fst c \<and> trim (form_title (snd (snd c))) \<noteq> []) \<longrightarrow>
      snd (run_events JSON (one_after_the_other calls) (s, [])) = []
      \<and> tasks (fst (run_events JSON (one_after_the_other calls) (s, [])))
          = tasks s @ map (newTask_of \<circ> snd) calls
      \<and> length (tasks (fst (run_events JSON (one_after_the_other calls) (s, []))))
          = length (tasks s) + length calls
      \<and> (distinct (map task_id (tasks s)) \<and> distinct (map (fst \<circ> snd) calls)
           \<and> (\<forall>c \<in> set calls. toString (fst (snd c)) \<notin> task_id ` set (tasks s))
         \<longrightarrow> distinct (map task_id
               (tasks (fst (run_events JSON (one_after_the_other calls) (s, [])))))))
   \<and> ((\<forall>c \<in> set calls_m. trim (fst (snd c)) \<noteq> []) \<longrightarrow>
      tasks_m (addTasks_m calls_m m) = tasks_m m @ map newTask_m_of calls_m
      \<and> length (tasks_m (addTasks_m calls_m m)) = length (tasks_m m) + length calls_m
      \<and> (distinct (map task_id (tasks_m m)) \<and> distinct (map fst calls_m)
           \<and> (\<forall>c \<in> set calls_m. fst c \<notin> task_id ` set (tasks_m m))
         \<longrightarrow> distinct (map task_id (tasks_m (addTasks_m calls_m m)))))"
proof -
  have persisted: "distinct (map task_id (tasks s @ map (newTask_of \<circ> snd) calls))"
    if "distinct (map task_id (tasks s))" "distinct (map (fst \<circ> snd) calls)"
      "\<forall>c \<in> set calls. toString (fst (snd c)) \<notin> task_id ` set (tasks s)"
  proof -
    have ids: "map task_id (map (newTask_of \<circ> snd) calls) = map toString (map (fst \<circ> snd) calls)"
      by (simp add: task_id_newTask_of)
    have "distinct (map toString (map (fst \<circ> snd) calls))"
      using that(2) by (rule distinct_map_toString)
    moreover have "set (map task_id (tasks s)) \<inter> set (map toString (map (fst \<circ> snd) calls)) = {}"
      using that(3) by force
    ultimately show ?thesis
      using that(1) by (simp only: map_append ids distinct_append)
  qed
  have in_memory: "distinct (map task_id (tasks_m m @ map newTask_m_of calls_m))"
    if "distinct (map task_id (tasks_m m))" "distinct (map fst calls_m)"
      "\<forall>c \<in> set calls_m. fst c \<notin> task_id ` set (tasks_m m)"
  proof -
    have ids: "map task_id (map newTask_m_of calls_m) = map fst calls_m"
      by (simp add: task_id_newTask_m_of)
    have "set (map task_id (tasks_m m)) \<inter> set (map fst calls_m) = {}"
      using that(3) by force
    then show ?thesis
      using that(1,2) by (simp only: map_append ids distinct_append)
  qed
  have run: "snd (run_events JSON (one_after_the_other calls) (s, [])) = []
      \<and> tasks (fst (run_events JSON (one_after_the_other calls) (s, [])))
          = tasks s @ map (newTask_of \<circ> snd) calls"
    if "\<forall>c \<in> set calls. fst c"
    using one_after_the_other_accepted [OF that, of JSON s] by auto
  show ?thesis
  proof (intro conjI impI)
    assume a: "\<forall>c \<in> set calls. fst c \<and> trim (form_title (snd (snd c))) \<noteq> []"
    then have acc: "\<forall>c \<in> set calls. fst c"
      by simp
    show "snd (run_events JSON (one_after_the_other calls) (s, [])) = []"
      using run [OF acc] by simp
    show t: "tasks (fst (run_events JSON (one_after_the_other calls) (s, [])))
          = tasks s @ map (newTask_of \<circ> snd) calls"
      using run [OF acc] by simp
    show "length (tasks (fst (run_events JSON (one_after_the_other calls) (s, []))))
          = length (tasks s) + length calls"
      by (simp add: t)
    show "distinct (map task_id (tasks (fst (run_events JSON (one_after_the_other calls) (s, [])))))"
      if "distinct (map task_id (tasks s)) \<and> distinct (map (fst \<circ> snd) calls)
           \<and> (\<forall>c \<in> set calls. toString (fst (snd c)) \<notin> task_id ` set (tasks s))"
      unfolding t using that persisted by blast
  next
    assume b: "\<forall>c \<in> set calls_m. trim (fst (snd c)) \<noteq> []"
    show t: "tasks_m (addTasks_m calls_m m) = tasks_m m @ map newTask_m_of calls_m"
      using b by (rule addTasks_m_nonblank)
    show "length (tasks_m (addTasks_m calls_m m)) = length (tasks_m m) + length calls_m"
      by (simp add: t)
    show "distinct (map task_id (tasks_m (addTasks_m calls_m m)))"
      if "distinct (map task_id (tasks_m m)) \<and> distinct (map fst calls_m)
           \<and> (\<forall>c \<in> set calls_m. fst c \<notin> task_id ` set (tasks_m m))"
      unfolding t using that in_memory by blast
  qed
qed

theorem addTasks_length_and_ids_witness:
  "trim ''Buy milk'' \<noteq> [] \<and> trim ''Water plants'' \<noteq> []
   \<and> tasks (fst (run_events JSON_runtime
      [AddPressed 1700000000002 \<lparr>form_title = ''Buy milk'', form_description = None\<rparr>,
       Settled 0 True,
       AddPressed 1700000000003
         \<lparr>form_title = ''Water plants'', form_description = Some ''balcony''\<rparr>,
       Settled 0 True]
      (two_tasks, [])))
     = [task_a, task_b,
        \<lparr>task_id = toString 1700000000002, title = ''Buy milk'', description = Some [],
         completed = False\<rparr>,
        \<lparr>task_id = toString 1700000000003, title = ''Water plants'',
         description = Some ''balcony'', completed = False\<rparr>]
   \<and> distinct (map task_id (tasks (fst (run_events JSON_runtime
      [AddPressed 1700000000002 \<lparr>form_title = ''Buy milk'', form_description = None\<rparr>,
       Settled 0 True,
       AddPressed 1700000000003
         \<lparr>form_title = ''Water plants'', form_description = Some ''balcony''\<rparr>,
       Settled 0 True]
      (two_tasks, [])))))
   \<and> length (tasks_m (addTasks_m [(''0.25'', ''Buy milk'', []), (''0.75'', ''Water plants'', ''balcony'')]
        two_tasks_m)) = 2 + 2
   \<and> distinct (map task_id (tasks_m (addTasks_m
        [(''0.25'', ''Buy milk'', []), (''0.75'', ''Water plants'', ''balcony'')] two_tasks_m)))"
proof -
  have a: "toString 1700000000002 = ''1700000000002''"
    by (simp add: toString.simps digit_char_def char_of_eq_iff)
  have b: "toString 1700000000003 = ''1700000000003''"
    by (simp add: toString.simps digit_char_def char_of_eq_iff)
  show ?thesis
    using addTasks_length_and_ids [of
      "[(True, 1700000000002, \<lparr>form_title = ''Buy milk'', form_description = None\<rparr>),
        (True, 1700000000003, \<lparr>form_title = ''Water plants'', form_description = Some ''balcony''\<rparr>)]"
      JSON_runtime two_tasks
      "[(''0.25'', ''Buy milk'', []), (''0.75'', ''Water plants'', ''balcony'')]" two_tasks_m]
    by (simp add: a b two_tasks_def two_tasks_m_def initial_def initial_m_def task_a_def task_b_def
        newTask_of_def newTask_m_of_def or_empty_def trim_def is_white_space_def
        one_after_the_other_def)
qed

subsection \<open>A rejected write\<close>

text \<open>
  C2, as stated: after a rejected write the in-memory list is the new list that was
  passed to \<open>saveAllTasks\<close>. It is not: saving \<open>[task_a]\<close> over the empty list with the
  store rejecting leaves the empty list, and so does the \<open>addTask\<close> that would have
  created a first task.
\<close>

theorem rejected_write_counterexample:
  "tasks (saveAllTasks JSON_runtime False [task_a] (initial Map.empty)) \<noteq> [task_a]
   \<and> tasks (addTask JSON_runtime False 1700000000000
         \<lparr>form_title = ''Buy milk'', form_description = None\<rparr> (initial Map.empty)) = []"
  by (simp add: addTask_def saveAllTasks_tasks initial_def)

text \<open>
  C2, amended. When the store rejects the write, \<open>saveAllTasks\<close> leaves the in-memory
  list and the store as they were and appends one line to the console; so every mutating
  operation (add, edit, delete, toggle) leaves list and store unchanged. The list takes
  the new value only with an accepted write, together with the store.
\<close>

theorem rejected_write_keeps_list:
  "tasks (saveAllTasks JSON False updatedTasks s) = tasks s
   \<and> storage (saveAllTasks JSON False updatedTasks s) = storage s
   \<and> console (saveAllTasks JSON False updatedTasks s) = console s @ [''Erro ao salvar tarefas:'']
   \<and> tasks (addTask JSON False now task s) = tasks s
   \<and> storage (addTask JSON False now task s) = storage s
   \<and> tasks (editExistingTask JSON False task s) = tasks s
   \<and> storage (editExistingTask JSON False task s) = storage s
   \<and> tasks (deleteTask JSON False t s) = tasks s
   \<and> storage (deleteTask JSON False t s) = storage s
   \<and> tasks (toggleCompleteTask JSON False t s) = tasks s
   \<and> storage (toggleCompleteTask JSON False t s) = storage s
   \<and> tasks (saveAllTasks JSON True updatedTasks s) = updatedTasks
   \<and> storage (saveAllTasks JSON True updatedTasks s) ''tasks'' = Some (stringify JSON updatedTasks)"
  by (simp add: saveAllTasks_tasks saveAllTasks_storage saveAllTasks_console addTask_def
      editExistingTask_def deleteTask_def toggleCompleteTask_def split: option.split)

subsection \<open>Blank titles\<close>

text \<open>
  C3. In the persisted component \<open>addTask\<close> has no check of its own, and the schema of
  the form only asks for a title of length at least one. A title of one space passes the
  schema, is blank after \<open>trim\<close>, and is appended as a task.
\<close>

theorem addTask_blank_title_appended:
  "trim '' '' = []
   \<and> taskSchema \<lparr>form_title = '' '', form_description = None\<rparr>
   \<and> tasks (handleSubmit JSON_runtime True 1700000000000
        \<lparr>form_title = '' '', form_description = None\<rparr> (initial Map.empty))
       = [\<lparr>task_id = toString 1700000000000, title = '' '', description = Some [],
           completed = False\<rparr>]"
  by (simp add: trim_def is_white_space_def taskSchema_def handleSubmit_def initial_def
      addTask_def saveAllTasks_tasks or_empty_def)

text \<open>
  The in-memory \<open>addTask\<close> does check: a title of white space only (the empty title in
  particular) changes nothing. In the persisted component the empty title is stopped by
  the form's schema, before \<open>addTask\<close>.
\<close>

lemma trim_blank: "trim x = [] \<longleftrightarrow> (\<forall>c \<in> set x. is_white_space c)"
proof
  assume "trim x = []"
  then have all: "\<forall>c \<in> set (dropWhile is_white_space x). is_white_space c"
    by (simp add: trim_def)
  have "dropWhile is_white_space x = []"
  proof (cases "dropWhile is_white_space x")
    case Nil
    then show ?thesis .
  next
    case (Cons c cs)
    then have "\<not> is_white_space c"
      using hd_dropWhile [of is_white_space x] by simp
    with all Cons show ?thesis
      by simp
  qed
  then show "\<forall>c \<in> set x. is_white_space c"
    by simp
next
  assume "\<forall>c \<in> set x. is_white_space c"
  then have "dropWhile is_white_space x = []"
    by simp
  then show "trim x = []"
    unfolding trim_def by (simp only: rev.simps dropWhile.simps)
qed

lemma addTask_m_blank_title: "(\<forall>c \<in> set (newTitle m). is_white_space c) \<Longrightarrow> addTask_m random m = m"
  by (simp add: addTask_m_def trim_blank)

lemma handleSubmit_empty_title:
  "form_title values = [] \<Longrightarrow> handleSubmit JSON available now values s = s"
  by (simp add: handleSubmit_def taskSchema_def)

subsection \<open>Saving an edit\<close>

text \<open>
  C4. In the in-memory component \<open>editExistingTask\<close> rebuilds the task from the edit
  target recorded when the edit began, so it writes that record's \<open>completed\<close> flag back.
  In the session below the task is marked complete while it is being edited (the list
  holds it as complete, the edit target still as incomplete); saving the edit then makes
  it incomplete again.
\<close>

theorem editExistingTask_m_restores_completed:
  "tasks_m editing_m = [milk_m]
   \<and> editTask_m editing_m = Some milk_m
   \<and> tasks_m toggled_while_editing_m = [milk_m\<lparr>completed := True\<rparr>]
   \<and> editTask_m toggled_while_editing_m = Some milk_m
   \<and> tasks_m edit_saved_m = [milk_m\<lparr>title := ''Buy oat milk'', completed := False\<rparr>]"
  by (simp add: edit_saved_m_def toggled_while_editing_m_def editing_m_def added_m_def milk_m_def
      initial_m_def setNewTitle_def addTask_m_def trim_def is_white_space_def or_empty_def
      openOptions_m_def handleOptionsAction_m_def toggleCompleteTask_m_def
      onPress_submit_m_def editExistingTask_m_def)

text \<open>
  The persisted component does what C4 says: \<open>editExistingTask\<close> keeps the length of the
  list and every task's \<open>id\<close> and \<open>completed\<close> flag as the list has them, leaves the tasks
  with another \<open>id\<close> untouched, and, when the write is accepted, gives the matching task
  the submitted title and description.
\<close>

lemma editExistingTask_in_place:
  assumes "editTask s = Some e"
  shows "length (tasks (editExistingTask JSON available taskData s)) = length (tasks s)
   \<and> (\<forall>i < length (tasks s).
         task_id (tasks (editExistingTask JSON available taskData s) ! i) = task_id (tasks s ! i)
       \<and> completed (tasks (editExistingTask JSON available taskData s) ! i)
           = completed (tasks s ! i)
       \<and> (task_id (tasks s ! i) \<noteq> task_id e \<longrightarrow>
            tasks (editExistingTask JSON available taskData s) ! i = tasks s ! i)
       \<and> (available \<and> task_id (tasks s ! i) = task_id e \<longrightarrow>
            title (tasks (editExistingTask JSON available taskData s) ! i) = form_title taskData
          \<and> description (tasks (editExistingTask JSON available taskData s) ! i)
              = Some (or_empty (form_description taskData))))"
  using assms by (simp add: editExistingTask_def saveAllTasks_tasks)

text \<open>
  What the in-memory \<open>editExistingTask\<close> keeps: the length, every \<open>id\<close>, and the tasks
  with another \<open>id\<close>. The matching task gets the typed title and description, and the
  edit target's \<open>completed\<close> flag.
\<close>

lemma editExistingTask_m_in_place:
  "length (tasks_m (editExistingTask_m e m)) = length (tasks_m m)
   \<and> (\<forall>i < length (tasks_m m).
         task_id (tasks_m (editExistingTask_m e m) ! i) = task_id (tasks_m m ! i)
       \<and> (task_id (tasks_m m ! i) \<noteq> task_id e \<longrightarrow>
            tasks_m (editExistingTask_m e m) ! i = tasks_m m ! i)
       \<and> (task_id (tasks_m m ! i) = task_id e \<longrightarrow>
            title (tasks_m (editExistingTask_m e m) ! i) = newTitle m
          \<and> description (tasks_m (editExistingTask_m e m) ! i) = Some (newDescription m)
          \<and> completed (tasks_m (editExistingTask_m e m) ! i) = completed e))"
  by (simp add: editExistingTask_m_def)

subsection \<open>Deleting the task under edit\<close>

text \<open>
  C5. In the in-memory component neither \<open>openOptions\<close> nor \<open>deleteTask\<close> touches the
  edit target: deleting the task that is being edited empties the list and leaves the
  edit target pointing at the deleted task.
\<close>

theorem deleteTask_m_keeps_edit_target:
  "tasks_m editing_m = [milk_m]
   \<and> editTask_m editing_m = Some milk_m
   \<and> tasks_m deleted_while_editing_m = []
   \<and> editTask_m deleted_while_editing_m = Some milk_m"
  by (simp add: deleted_while_editing_m_def editing_m_def added_m_def milk_m_def
      initial_m_def setNewTitle_def addTask_m_def trim_def is_white_space_def or_empty_def
      openOptions_m_def handleOptionsAction_m_def deleteTask_m_def)

text \<open>
  In the persisted component \<open>deleteTask\<close> does not touch the edit target either, but
  opening the options menu, the only way to the delete button, has cleared it before:
  after a deletion the edit target is none.
\<close>

lemma deleteTask_edit_target:
  "editTask (deleteTask JSON available t s) = editTask s
   \<and> editTask (openOptions t s) = None
   \<and> editTask (handleOptionsAction JSON available ''delete'' (openOptions t s)) = None
   \<and> tasks (handleOptionsAction JSON True ''delete'' (openOptions t s))
       = filter (\<lambda>x. task_id x \<noteq> task_id t) (tasks s)"
  by (simp add: deleteTask_def openOptions_def handleOptionsAction_def saveAllTasks_view
      saveAllTasks_tasks)

subsection \<open>Saving, then loading\<close>

text \<open>
  Loading after saving, for any codec: when the text written for the list is not empty
  and parses to \<open>v\<close>, loading returns \<open>v\<close>.
\<close>

lemma getAllTasks_after_saveAllTasks:
  assumes "parse JSON (stringify JSON L) = Inr v" and "stringify JSON L \<noteq> []"
  shows "getAllTasks JSON True (saveAllTasks JSON True L s) = (v, saveAllTasks JSON True L s)"
  using assms
  by (simp add: getAllTasks_def getAllTasks_try_def AsyncStorage_getItem_def saveAllTasks_storage)

text \<open>
  The parser on texts written by hand: a task array with white space between the tokens,
  the members in another order, a two-character escape, a \<open>\u\<close> escape and an escaped
  solidus in the title and no \<open>description\<close> member; and a text that is no task array.
\<close>

lemma parse_json_examples:
  "map_sum id as_tasks
     (parse_json (''[ {'' @ member_key ''title'' @ [dquote] @ ''a'' @ [backslash] @ ''n''
          @ [backslash] @ ''u0041'' @ [backslash] @ ''/'' @ [dquote]
        @ '', '' @ member_key ''completed'' @ '' true ,'' @ [CHR 0x0A]
        @ member_key ''id'' @ [dquote] @ ''7'' @ [dquote] @ ''} ]''))
   = Inr (Some [\<lparr>task_id = ''7'', title = ''a'' @ [CHR 0x0A] @ ''A/'', description = None,
                  completed = True\<rparr>])"
  "parse_json ''[1.5e3, null, {}, [false]]''
     = Inr (JArray [JNumber ''1.5e3'', JNull, JObject [], JArray [JBool False]])"
  "parse_json ''[1,]'' = Inl SyntaxError"
  by (simp_all add: parse_json_def lex.simps is_json_space_def member_key_def dquote_def
      backslash_def expect_def unescape_def unicode_escape_def hex_value_def lex_number_def
      int_part_def frac_part_def exp_part_def is_digit_def step_def start_value_def
      as_tasks_def as_task_def member_def code_units_def as_string_def as_bool_def
      char_of_eq_iff)

text \<open>
  C6. With the runtime's codec and a store that accepts the write and the read,
  \<open>getAllTasks\<close> after \<open>saveAllTasks L\<close> returns the value of \<open>L\<close>, which read as a task
  array is \<open>L\<close>: the same tasks in the same order with the same fields. The mount effect
  then publishes \<open>L\<close>.
\<close>

theorem save_then_load:
  "fst (getAllTasks JSON_runtime True (saveAllTasks JSON_runtime True L s)) = json_of_tasks L
   \<and> as_tasks (fst (getAllTasks JSON_runtime True (saveAllTasks JSON_runtime True L s)))
       = Some L
   \<and> map_sum id tasks (useEffect_mount JSON_runtime True
        ((saveAllTasks JSON_runtime True L s)\<lparr>tasks := []\<rparr>)) = Inr L"
  by (simp add: getAllTasks_def getAllTasks_try_def AsyncStorage_getItem_def
      saveAllTasks_storage JSON_runtime_def stringify_tasks_nonempty
      parse_json_stringify_tasks as_tasks_json_of_tasks useEffect_mount_def)

subsection \<open>The filter\<close>

text \<open>
  C7. \<open>setFilter\<close> changes the filter and nothing else: the task list, the edit target,
  the selection and the store are as before. The visible tasks partition the list: under
  \<open>all\<close> they are the whole list, its length is the sum of the lengths under \<open>complete\<close>
  and under \<open>incomplete\<close>, and these two have no task in common and together hold every
  task of the list. The same holds in the in-memory component.
\<close>

theorem setFilter_visible_partition:
  "tasks (setFilter v s) = tasks s
   \<and> editTask (setFilter v s) = editTask s
   \<and> selectedTask (setFilter v s) = selectedTask s
   \<and> storage (setFilter v s) = storage s
   \<and> filteredTasks (setFilter ''all'' s) = tasks s
   \<and> length (filteredTasks (setFilter ''all'' s)) =
       length (filteredTasks (setFilter ''complete'' s))
       + length (filteredTasks (setFilter ''incomplete'' s))
   \<and> set (filteredTasks (setFilter ''complete'' s))
       \<inter> set (filteredTasks (setFilter ''incomplete'' s)) = {}
   \<and> set (filteredTasks (setFilter ''complete'' s))
       \<union> set (filteredTasks (setFilter ''incomplete'' s)) = set (tasks s)
   \<and> tasks_m (setFilter_m v m) = tasks_m m
   \<and> editTask_m (setFilter_m v m) = editTask_m m
   \<and> selectedTask_m (setFilter_m v m) = selectedTask_m m
   \<and> filteredTasks_m (setFilter_m ''all'' m) = tasks_m m
   \<and> length (filteredTasks_m (setFilter_m ''all'' m)) =
       length (filteredTasks_m (setFilter_m ''complete'' m))
       + length (filteredTasks_m (setFilter_m ''incomplete'' m))
   \<and> set (filteredTasks_m (setFilter_m ''complete'' m))
       \<inter> set (filteredTasks_m (setFilter_m ''incomplete'' m)) = {}
   \<and> set (filteredTasks_m (setFilter_m ''complete'' m))
       \<union> set (filteredTasks_m (setFilter_m ''incomplete'' m)) = set (tasks_m m)"
proof -
  have len: "length xs = length (filter completed xs) + length (filter (\<lambda>t. \<not> completed t) xs)"
    for xs :: "Task list"
    by (simp add: sum_length_filter_compl)
  have disj: "set (filter completed xs) \<inter> set (filter (\<lambda>t. \<not> completed t) xs) = {}"
    for xs :: "Task list"
    by auto
  have un: "set (filter completed xs) \<union> set (filter (\<lambda>t. \<not> completed t) xs) = set xs"
    for xs :: "Task list"
    by auto
  show ?thesis
    unfolding setFilter_def filteredTasks_def setFilter_m_def filteredTasks_m_def
    using len [of "tasks s"] disj [of "tasks s"] un [of "tasks s"]
      len [of "tasks_m m"] disj [of "tasks_m m"] un [of "tasks_m m"]
    by simp
qed

theorem setFilter_visible_partition_witness:
  "tasks (setFilter ''complete'' two_tasks) = [task_a, task_b]
   \<and> filteredTasks (setFilter ''complete'' two_tasks) = [task_b]
   \<and> filteredTasks (setFilter ''incomplete'' two_tasks) = [task_a]
   \<and> length (filteredTasks (setFilter ''all'' two_tasks)) = 1 + 1
   \<and> filteredTasks_m (setFilter_m ''complete'' two_tasks_m) = [task_b]
   \<and> length (filteredTasks_m (setFilter_m ''all'' two_tasks_m)) = 1 + 1"
  using setFilter_visible_partition [of "''complete''" two_tasks two_tasks_m]
  by (simp add: two_tasks_def two_tasks_m_def initial_def initial_m_def task_a_def task_b_def
      setFilter_def filteredTasks_def setFilter_m_def filteredTasks_m_def)

subsection \<open>Loading\<close>




subsection \<open>Toggling\<close>

text \<open>
  C9, as stated, has no condition on the store or on the timing of the two toggles. A
  toggle whose write the store rejects flips nothing; an accepted toggle followed by a
  rejected one leaves the task flipped; and of two accepted toggles, the second pressed
  while the write of the first is still pending, both start from the same captured list,
  so the task ends up flipped once.
\<close>

theorem toggleCompleteTask_counterexample:
  "task_id task_a \<in> task_id ` set (tasks two_tasks)
   \<and> tasks (toggleCompleteTask JSON_runtime False task_a two_tasks) = [task_a, task_b]
   \<and> tasks (toggleCompleteTask JSON_runtime False task_a
              (toggleCompleteTask JSON_runtime True task_a two_tasks))
       = [task_a\<lparr>completed := True\<rparr>, task_b]
   \<and> tasks (fst (run_events JSON_runtime
        [TogglePressed task_a, TogglePressed task_a, Settled 0 True, Settled 0 True]
        (two_tasks, []))) = [task_a\<lparr>completed := True\<rparr>, task_b]
   \<and> task_a\<lparr>completed := True\<rparr> \<noteq> task_a"
  by (simp add: toggleCompleteTask_def toggleCompleteTask_updatedTasks_def saveAllTasks_tasks
      two_tasks_def initial_def task_a_def task_b_def)

text \<open>
  C9, amended. \<open>toggleCompleteTask\<close> keeps the length of the list and, at every
  position, the task's \<open>id\<close>, \<open>title\<close> and \<open>description\<close>; when the store accepts the
  write it negates \<open>completed\<close> where the \<open>id\<close> is the given task's and keeps it
  elsewhere, and when the store rejects the write it keeps it everywhere. Two toggles of
  the same task, the second pressed after the write of the first has settled and both
  writes accepted, give the list back. The in-memory component, which awaits nothing,
  flips and restores without condition.
\<close>

theorem toggleCompleteTask_involution:
  "length (tasks (toggleCompleteTask JSON available t s)) = length (tasks s)
   \<and> (\<forall>i < length (tasks s).
         task_id (tasks (toggleCompleteTask JSON available t s) ! i) = task_id (tasks s ! i)
       \<and> title (tasks (toggleCompleteTask JSON available t s) ! i) = title (tasks s ! i)
       \<and> description (tasks (toggleCompleteTask JSON available t s) ! i)
           = description (tasks s ! i)
       \<and> completed (tasks (toggleCompleteTask JSON available t s) ! i) =
           (if available \<and> task_id (tasks s ! i) = task_id t then \<not> completed (tasks s ! i)
            else completed (tasks s ! i)))
   \<and> tasks (toggleCompleteTask JSON True t (toggleCompleteTask JSON True t s)) = tasks s
   \<and> length (tasks_m (toggleCompleteTask_m k m)) = length (tasks_m m)
   \<and> (\<forall>i < length (tasks_m m).
         task_id (tasks_m (toggleCompleteTask_m k m) ! i) = task_id (tasks_m m ! i)
       \<and> title (tasks_m (toggleCompleteTask_m k m) ! i) = title (tasks_m m ! i)
       \<and> description (tasks_m (toggleCompleteTask_m k m) ! i) = description (tasks_m m ! i)
       \<and> completed (tasks_m (toggleCompleteTask_m k m) ! i) =
           (if task_id (tasks_m m ! i) = k then \<not> completed (tasks_m m ! i)
            else completed (tasks_m m ! i)))
   \<and> tasks_m (toggleCompleteTask_m k (toggleCompleteTask_m k m)) = tasks_m m
   \<and> run_events JSON [TogglePressed t, Settled 0 available] (s, [])
       = (toggleCompleteTask JSON available t s, [])
   \<and> tasks (fst (run_events JSON
        [TogglePressed t, Settled 0 True, TogglePressed t, Settled 0 True] (s, []))) = tasks s"
proof -
  have twice: "map (\<lambda>t. if task_id t = k then t\<lparr>completed := \<not> completed t\<rparr> else t)
                 (map (\<lambda>t. if task_id t = k then t\<lparr>completed := \<not> completed t\<rparr> else t) xs) = xs"
    for k and xs :: "Task list"
    by (induction xs) simp_all
  have a: "tasks (toggleCompleteTask JSON True t (toggleCompleteTask JSON True t s)) = tasks s"
    by (simp add: toggleCompleteTask_def saveAllTasks_tasks twice del: map_map)
  have b: "tasks_m (toggleCompleteTask_m k (toggleCompleteTask_m k m)) = tasks_m m"
    by (simp add: toggleCompleteTask_m_def twice del: map_map)
  have c: "run_events JSON [TogglePressed t, Settled 0 True, TogglePressed t, Settled 0 True] (s, [])
      = (toggleCompleteTask JSON True t (toggleCompleteTask JSON True t s), [])"
    using run_events_append [of JSON "[TogglePressed t, Settled 0 True]"
        "[TogglePressed t, Settled 0 True]" "(s, [])"]
    by (simp only: append_Cons append_Nil run_events_toggleCompleteTask)
  show ?thesis
    using a b
    by (simp only: c run_events_toggleCompleteTask fst_conv)
       (simp add: toggleCompleteTask_def saveAllTasks_tasks toggleCompleteTask_m_def)
qed

theorem toggleCompleteTask_involution_witness:
  "0 < length (tasks two_tasks)
   \<and> completed (tasks (toggleCompleteTask JSON_runtime True task_a two_tasks) ! 0)
   \<and> tasks (toggleCompleteTask JSON_runtime True task_a two_tasks) ! 1 = task_b
   \<and> tasks (toggleCompleteTask JSON_runtime True task_a
              (toggleCompleteTask JSON_runtime True task_a two_tasks)) = [task_a, task_b]
   \<and> tasks (fst (run_events JSON_runtime
        [TogglePressed task_a, Settled 0 True, TogglePressed task_a, Settled 0 True]
        (two_tasks, []))) = [task_a, task_b]
   \<and> 1 < length (tasks_m two_tasks_m)
   \<and> \<not> completed (tasks_m (toggleCompleteTask_m (task_id task_b) two_tasks_m) ! 1)
   \<and> tasks_m (toggleCompleteTask_m (task_id task_b)
                (toggleCompleteTask_m (task_id task_b) two_tasks_m)) = [task_a, task_b]"
  using toggleCompleteTask_involution
    [of JSON_runtime True task_a two_tasks "task_id task_b" two_tasks_m]
  by (simp add: two_tasks_def two_tasks_m_def initial_def initial_m_def task_a_def task_b_def
      del: run_events.simps)

subsection \<open>Saving an edit whose target is gone\<close>

text \<open>
  C10. When the edit target's \<open>id\<close> is the \<open>id\<close> of no task of the list,
  \<open>editExistingTask\<close> leaves the list as it is, whatever the store answers and whatever
  the submitted values; the function has no error result. The same holds in the in-memory
  component.
\<close>

theorem editExistingTask_absent_target:
  "(editTask s = Some e \<and> task_id e \<notin> task_id ` set (tasks s)
      \<longrightarrow> tasks (editExistingTask JSON available taskData s) = tasks s)
   \<and> (task_id e \<notin> task_id ` set (tasks_m m)
      \<longrightarrow> tasks_m (editExistingTask_m e m) = tasks_m m)"
proof -
  have "map (\<lambda>t. if task_id t = task_id e then f t else t) xs = xs"
    if "task_id e \<notin> task_id ` set xs" for f and xs :: "Task list"
    using that by (induction xs) auto
  then show ?thesis
    by (simp add: editExistingTask_def saveAllTasks_tasks editExistingTask_m_def)
qed


theorem editExistingTask_absent_target_witness:
  "editTask (two_tasks\<lparr>tasks := [task_b], editTask := Some task_a\<rparr>) = Some task_a
   \<and> task_id task_a \<notin> task_id ` set (tasks (two_tasks\<lparr>tasks := [task_b], editTask := Some task_a\<rparr>))
   \<and> tasks (editExistingTask JSON_runtime True \<lparr>form_title = ''Buy tea'', form_description = None\<rparr>
        (two_tasks\<lparr>tasks := [task_b], editTask := Some task_a\<rparr>)) = [task_b]
   \<and> task_id task_a \<notin> task_id ` set (tasks_m (two_tasks_m\<lparr>tasks_m := [task_b]\<rparr>))
   \<and> tasks_m (editExistingTask_m task_a (two_tasks_m\<lparr>tasks_m := [task_b]\<rparr>)) = [task_b]"
  using editExistingTask_absent_target
    [of "two_tasks\<lparr>tasks := [task_b], editTask := Some task_a\<rparr>" task_a JSON_runtime True
      "\<lparr>form_title = ''Buy tea'', form_description = None\<rparr>"
      "two_tasks_m\<lparr>tasks_m := [task_b]\<rparr>"]
  by (simp add: two_tasks_def two_tasks_m_def initial_def initial_m_def task_a_def task_b_def)

end
